theory Spec2Isabelle
  imports Main "HOL-Library.Sublist" "HOL-Library.Char_ord"
begin

section \<open>The deduplicator\<close>

text \<open>
  \<^verbatim>\<open>removeDuplicatesFromSlice\<close> (main.go, lines 138-149) walks the slice once. The Go
  map \<^verbatim>\<open>check\<close> of type \<^verbatim>\<open>map[string]bool\<close> answers \<^verbatim>\<open>false\<close> for a key that was
  never stored, so it is a total function from strings to booleans that starts as the
  constant \<open>False\<close>; \<^verbatim>\<open>append\<close> adds at the end of the result slice.
\<close>

fun dedup_loop :: "string list \<Rightarrow> (string \<Rightarrow> bool) \<Rightarrow> string list \<Rightarrow> string list" where
  "dedup_loop [] check newReturnSlice = newReturnSlice"
| "dedup_loop (content # rest) check newReturnSlice =
     (if \<not> check content
      then dedup_loop rest (check(content := True)) (newReturnSlice @ [content])
      else dedup_loop rest check newReturnSlice)"

definition removeDuplicatesFromSlice :: "string list \<Rightarrow> string list" where
  "removeDuplicatesFromSlice slice = dedup_loop slice (\<lambda>_. False) []"

text \<open>
  The specification's words, "retaining only the first occurrence of each distinct value,
  original relative order preserved": position \<open>i\<close> of the input is kept exactly when its
  value does not occur at an earlier position.
\<close>

definition first_occurrences :: "string list \<Rightarrow> string list" where
  "first_occurrences xs =
     map (\<lambda>i. xs ! i) (filter (\<lambda>i. xs ! i \<notin> set (take i xs)) [0..<length xs])"


section \<open>Bytes and strings of the Go library\<close>

text \<open>
  A Go string is a sequence of bytes; \<^typ>\<open>string\<close> is a list of 8-bit characters, and
  the order on characters is the order on their byte values. The functions of this section
  are the ones of the Go standard library that main.go calls on strings
  (\<^verbatim>\<open>strings\<close>, \<^verbatim>\<open>path\<close>, \<^verbatim>\<open>net/url\<close>, \<^verbatim>\<open>unicode/utf8\<close>, \<^verbatim>\<open>regexp\<close>), written after
  their library sources.
\<close>

definition HasPrefix :: "string \<Rightarrow> string \<Rightarrow> bool" where
  "HasPrefix s pre = (length pre \<le> length s \<and> take (length pre) s = pre)"

definition HasSuffix :: "string \<Rightarrow> string \<Rightarrow> bool" where
  "HasSuffix s suf = (length suf \<le> length s \<and> drop (length s - length suf) s = suf)"

text \<open>\<^verbatim>\<open>strings.Contains(s, substr)\<close>: some position of \<open>s\<close> starts with \<open>substr\<close>.\<close>

fun Contains :: "string \<Rightarrow> string \<Rightarrow> bool" where
  "Contains [] substr = (substr = [])"
| "Contains (c # s) substr = (HasPrefix (c # s) substr \<or> Contains s substr)"

text \<open>
  \<^verbatim>\<open>strings.Trim(s, "_")\<close> with a cutset of one ASCII byte is
  \<^verbatim>\<open>trimLeftByte(trimRightByte(s, c), c)\<close>; both are loops that drop one byte at a time.
\<close>

fun trimLeftByte :: "string \<Rightarrow> char \<Rightarrow> string" where
  "trimLeftByte [] c = []"
| "trimLeftByte (x # s) c = (if x = c then trimLeftByte s c else x # s)"

function trimRightByte :: "string \<Rightarrow> char \<Rightarrow> string" where
  "trimRightByte s c = (if s \<noteq> [] \<and> last s = c then trimRightByte (butlast s) c else s)"
  by pat_completeness auto
termination
  by (relation "measure (\<lambda>(s, c). length s)") auto

declare trimRightByte.simps [simp del]

definition Trim :: "string \<Rightarrow> char \<Rightarrow> string" where
  "Trim s c = (if s = [] then s else trimLeftByte (trimRightByte s c) c)"

text \<open>
  \<^verbatim>\<open>strings.ToLower\<close>: a string of ASCII bytes is lowered byte by byte (\<open>c += 'a' - 'A'\<close>
  for an upper-case letter). A string with a byte from \<open>0x80\<close> on goes through
  \<^verbatim>\<open>strings.Map(unicode.ToLower, s)\<close>, whose Unicode tables are not modelled: that
  mapping is the parameter \<open>unicode_lower\<close>.
\<close>

definition lower_byte :: "char \<Rightarrow> char" where
  "lower_byte c = (if CHR ''A'' \<le> c \<and> c \<le> CHR ''Z'' then char_of (of_char c + (32::nat)) else c)"

definition is_ascii :: "char \<Rightarrow> bool" where
  "is_ascii c = ((of_char c :: nat) < 128)"

definition ToLower :: "(string \<Rightarrow> string) \<Rightarrow> string \<Rightarrow> string" where
  "ToLower unicode_lower s = (if list_all is_ascii s then map lower_byte s else unicode_lower s)"

text \<open>
  \<^verbatim>\<open>path.Base\<close>: the empty path gives \<^verbatim>\<open>"."\<close>; trailing slashes are stripped; what
  follows the last slash is kept; a path of slashes only gives \<^verbatim>\<open>"/"\<close>.
  \<^verbatim>\<open>LastIndexByte\<close> scans from the end and answers \<open>-1\<close> when the byte is absent.
\<close>

fun lastIndex_loop :: "string \<Rightarrow> char \<Rightarrow> nat \<Rightarrow> int" where
  "lastIndex_loop s c 0 = - 1"
| "lastIndex_loop s c (Suc i) = (if s ! i = c then int i else lastIndex_loop s c i)"

definition LastIndexByte :: "string \<Rightarrow> char \<Rightarrow> int" where
  "LastIndexByte s c = lastIndex_loop s c (length s)"

definition Base :: "string \<Rightarrow> string" where
  "Base path =
     (if path = [] then ''.''
      else let p1 = trimRightByte path (CHR ''/'');
               i = LastIndexByte p1 (CHR ''/'');
               p2 = (if i \<ge> 0 then drop (nat (i + 1)) p1 else p1)
           in if p2 = [] then ''/'' else p2)"

text \<open>
  \<^verbatim>\<open>url.QueryUnescape\<close> is \<^verbatim>\<open>unescape(s, encodeQueryComponent)\<close>. Its first loop checks
  that every \<^verbatim>\<open>%\<close> is followed by two hexadecimal digits and returns the empty string
  with an \<^verbatim>\<open>EscapeError\<close> otherwise; its second loop decodes \<^verbatim>\<open>%XX\<close> to one byte and
  \<^verbatim>\<open>+\<close> to a space. The second loop runs only when the first found no error, so the two
  digits it reads after a \<^verbatim>\<open>%\<close> exist.
\<close>

datatype url_error = EscapeError string

definition ishex :: "char \<Rightarrow> bool" where
  "ishex c = ((CHR ''0'' \<le> c \<and> c \<le> CHR ''9'') \<or> (CHR ''a'' \<le> c \<and> c \<le> CHR ''f'')
     \<or> (CHR ''A'' \<le> c \<and> c \<le> CHR ''F''))"

text \<open>\<^verbatim>\<open>unhex\<close> panics on a byte that is no digit; it is only called on checked digits.\<close>

definition unhex :: "char \<Rightarrow> nat" where
  "unhex c =
     (if CHR ''0'' \<le> c \<and> c \<le> CHR ''9'' then of_char c - of_char (CHR ''0'')
      else if CHR ''a'' \<le> c \<and> c \<le> CHR ''f'' then of_char c - of_char (CHR ''a'') + 10
      else if CHR ''A'' \<le> c \<and> c \<le> CHR ''F'' then of_char c - of_char (CHR ''A'') + 10
      else 0)"

fun escapes_error :: "string \<Rightarrow> url_error option" where
  "escapes_error [] = None"
| "escapes_error (c # s) =
     (if c = CHR ''%'' then
        (if length s < 2 \<or> \<not> ishex (s ! 0) \<or> \<not> ishex (s ! 1)
         then Some (EscapeError (take 3 (c # s)))
         else escapes_error (drop 2 s))
      else escapes_error s)"

fun unescape_bytes :: "string \<Rightarrow> string" where
  "unescape_bytes [] = []"
| "unescape_bytes (c # s) =
     (if c = CHR ''%'' then
        char_of (unhex (s ! 0) * 16 + unhex (s ! 1)) # unescape_bytes (drop 2 s)
      else if c = CHR ''+'' then CHR '' '' # unescape_bytes s
      else c # unescape_bytes s)"

definition QueryUnescape :: "string \<Rightarrow> string \<times> url_error option" where
  "QueryUnescape s =
     (case escapes_error s of
        Some e \<Rightarrow> ([], Some e)
      | None \<Rightarrow> (unescape_bytes s, None))"

text \<open>
  The regular expression \<^verbatim>\<open>[^\w\-.]\<close> matches one rune that is not an ASCII letter, digit,
  underscore, hyphen or dot. The matcher steps through the string rune by rune with
  \<^verbatim>\<open>utf8.DecodeRuneInString\<close>, so \<^verbatim>\<open>ReplaceAllString(fileName, "_")\<close> writes one underscore
  for every such rune: for a well-formed multi-byte sequence as a whole, and for every
  byte that starts no well-formed sequence (it decodes to \<^verbatim>\<open>RuneError\<close> of width 1).
  \<open>first_byte\<close> is the table \<^verbatim>\<open>first\<close> of \<^verbatim>\<open>unicode/utf8\<close> for the bytes from \<open>0x80\<close> on:
  the length of the sequence and the range accepted for its second byte.
\<close>

definition is_word :: "char \<Rightarrow> bool" where
  "is_word c = ((CHR ''0'' \<le> c \<and> c \<le> CHR ''9'') \<or> (CHR ''A'' \<le> c \<and> c \<le> CHR ''Z'')
     \<or> c = CHR ''_'' \<or> (CHR ''a'' \<le> c \<and> c \<le> CHR ''z''))"

definition allowed :: "char \<Rightarrow> bool" where
  "allowed c = (is_word c \<or> c = CHR ''-'' \<or> c = CHR ''.'')"

definition first_byte :: "nat \<Rightarrow> (nat \<times> nat \<times> nat) option" where
  "first_byte b =
     (if 0xC2 \<le> b \<and> b \<le> 0xDF then Some (2, 0x80, 0xBF)
      else if b = 0xE0 then Some (3, 0xA0, 0xBF)
      else if 0xE1 \<le> b \<and> b \<le> 0xEC then Some (3, 0x80, 0xBF)
      else if b = 0xED then Some (3, 0x80, 0x9F)
      else if 0xEE \<le> b \<and> b \<le> 0xEF then Some (3, 0x80, 0xBF)
      else if b = 0xF0 then Some (4, 0x90, 0xBF)
      else if 0xF1 \<le> b \<and> b \<le> 0xF3 then Some (4, 0x80, 0xBF)
      else if b = 0xF4 then Some (4, 0x80, 0x8F)
      else None)"

definition continuation :: "char \<Rightarrow> bool" where
  "continuation c = (0x80 \<le> (of_char c :: nat) \<and> (of_char c :: nat) \<le> 0xBF)"

definition rune_width :: "string \<Rightarrow> nat" where
  "rune_width s =
     (case s of
        [] \<Rightarrow> 0
      | c # r \<Rightarrow>
          if is_ascii c then 1
          else (case first_byte (of_char c) of
                  None \<Rightarrow> 1
                | Some (sz, lo, hi) \<Rightarrow>
                    if length s < sz then 1
                    else if (of_char (r ! 0) :: nat) < lo \<or> hi < (of_char (r ! 0) :: nat) then 1
                    else if sz \<le> 2 then 2
                    else if \<not> continuation (r ! 1) then 1
                    else if sz \<le> 3 then 3
                    else if \<not> continuation (r ! 2) then 1
                    else 4))"

fun ReplaceAllInvalid :: "string \<Rightarrow> string" where
  "ReplaceAllInvalid [] = []"
| "ReplaceAllInvalid (c # s) =
     (if is_ascii c then (if allowed c then c else CHR ''_'') # ReplaceAllInvalid s
      else CHR ''_'' # ReplaceAllInvalid (drop (rune_width (c # s) - 1) s))"

section \<open>What the program takes from outside\<close>

text \<open>
  The program calls libraries and an operating system whose answers it cannot compute:
  the URL parser, the markup parser, the HTTP transport, the failures of the file system
  and the scheduler of its concurrent tasks. They are the fields of one environment.
  \<^item> \<open>url_Parse\<close>: \<^verbatim>\<open>url.Parse(rawURL)\<close>; \<open>None\<close> is an error, \<open>Some p\<close> a parsed URL with
    \<^verbatim>\<open>Path\<close> \<open>p\<close> (the only field main.go reads).
  \<^item> \<open>request_uri_ok\<close>: whether \<^verbatim>\<open>url.ParseRequestURI\<close> accepts a non-empty string.
  \<^item> \<open>unicode_lower\<close>: \<^verbatim>\<open>strings.Map(unicode.ToLower, s)\<close>.
  \<^item> \<open>filepath_Join\<close>: \<^verbatim>\<open>filepath.Join\<close> of a directory and a file name.
  \<^item> \<open>anchors\<close>: the markup parser; \<open>None\<close> when \<^verbatim>\<open>goquery.NewDocumentFromReader\<close>
    fails, otherwise, for the elements selected by \<^verbatim>\<open>a[href]\<close> in document order, what
    \<^verbatim>\<open>Attr("href")\<close> returns (\<open>None\<close> when the attribute does not exist).
  \<^item> \<open>http_get\<close>: a GET request; \<open>None\<close> is a transport error (a timeout of the client
    is one).
  \<^item> the remaining fields say which calls of the file system fail.
  \<^item> \<open>schedule\<close>: the order in which tasks that were launched together take effect.
\<close>

record response =
  status_code :: nat
  content_type :: string
  body :: string
  body_read_fails :: bool
  body_close_fails :: bool

record env =
  url_Parse :: "string \<Rightarrow> string option"
  request_uri_ok :: "string \<Rightarrow> bool"
  unicode_lower :: "string \<Rightarrow> string"
  filepath_Join :: "string \<Rightarrow> string \<Rightarrow> string"
  anchors :: "string \<Rightarrow> string option list option"
  http_get :: "string \<Rightarrow> response option"
  create_fails :: "string \<Rightarrow> bool"
  write_fails_after :: "string \<Rightarrow> nat option"
  open_append_fails :: "string \<Rightarrow> bool"
  append_fails_after :: "string \<Rightarrow> string \<Rightarrow> nat option"
  close_fails :: "string \<Rightarrow> bool"
  read_file_fails :: "string \<Rightarrow> bool"
  mkdir_fails :: "string \<Rightarrow> bool"
  schedule :: "string list \<Rightarrow> string list"

text \<open>One constructor for every place where main.go writes to the log.\<close>

datatype log_entry =
    LogParseURLError string
  | LogDecodeFileNameError url_error
  | LogHTMLParseError
  | LogHrefDecodeError url_error
  | LogFileExists string
  | LogGetFailed string
  | LogBadStatus string nat
  | LogBadContentType string string
  | LogReadFailed string
  | LogZeroBytes string
  | LogCreateFailed string
  | LogWriteFailed string
  | LogSuccess nat string string
  | LogMkdirError string
  | LogInvalidURL string
  | LogScraping string
  | LogFatal string

text \<open>
  The mutable world: the file system as \<^verbatim>\<open>os.Stat\<close> sees it, the GET requests issued
  so far and the log.
\<close>

datatype entry = File string | Dir

record world =
  fs :: "string \<Rightarrow> entry option"
  requests :: "string list"
  logged :: "log_entry list"

text \<open>
  A call either returns or ends the process: \<^verbatim>\<open>log.Fatalln\<close> prints and calls
  \<^verbatim>\<open>os.Exit(1)\<close>, which stops every task at once.
\<close>

datatype 'a outcome = Exited world | Returned 'a world

fun exited :: "'a outcome \<Rightarrow> bool" where
  "exited (Exited w) = True"
| "exited (Returned x w) = False"

fun world_of :: "'a outcome \<Rightarrow> world" where
  "world_of (Exited w) = w"
| "world_of (Returned x w) = w"

definition say :: "log_entry \<Rightarrow> world \<Rightarrow> world" where
  "say e w = w\<lparr>logged := logged w @ [e]\<rparr>"

definition say_all :: "log_entry list \<Rightarrow> world \<Rightarrow> world" where
  "say_all es w = w\<lparr>logged := logged w @ es\<rparr>"

section \<open>The URL sanitizer\<close>

text \<open>
  \<^verbatim>\<open>sanitizeFileNameFromURL\<close> (main.go, lines 158-182) returns the file name; the model
  returns with it the lines the function logs. The assignment
  \<^verbatim>\<open>fileName, err = url.QueryUnescape(fileName)\<close> stores what \<^verbatim>\<open>QueryUnescape\<close> returns,
  also when \<^verbatim>\<open>err\<close> is not nil.
\<close>

definition sanitizeFileNameFromURL :: "env \<Rightarrow> string \<Rightarrow> string \<times> log_entry list" where
  "sanitizeFileNameFromURL env rawURL =
     (case url_Parse env rawURL of
        None \<Rightarrow> (''invalid_filename'', [LogParseURLError rawURL])
      | Some parsedPath \<Rightarrow>
          (case QueryUnescape (Base parsedPath) of
             (fileName, err) \<Rightarrow>
               let lines = (case err of None \<Rightarrow> [] | Some e \<Rightarrow> [LogDecodeFileNameError e]);
                   safeFileName = Trim (ReplaceAllInvalid fileName) (CHR ''_'')
               in if safeFileName = [] then (''downloaded_file'', lines)
                  else (ToLower (unicode_lower env) safeFileName, lines)))"

section \<open>The link extractor\<close>

text \<open>
  \<^verbatim>\<open>parseHTML\<close> (main.go, lines 185-212): the callback of \<^verbatim>\<open>Each\<close> runs once for every
  selected anchor, in document order, and appends to \<^verbatim>\<open>pdfLinks\<close>.
\<close>

fun each_anchor ::
  "env \<Rightarrow> string option list \<Rightarrow> string list \<times> log_entry list \<Rightarrow> string list \<times> log_entry list"
where
  "each_anchor env [] acc = acc"
| "each_anchor env (a # rest) (pdfLinks, lines) =
     (case a of
        None \<Rightarrow> each_anchor env rest (pdfLinks, lines)
      | Some href \<Rightarrow>
          (case QueryUnescape href of
             (decodedHref, Some e) \<Rightarrow>
               each_anchor env rest (pdfLinks, lines @ [LogHrefDecodeError e])
           | (decodedHref, None) \<Rightarrow>
               if HasSuffix (ToLower (unicode_lower env) decodedHref) ''.pdf''
               then each_anchor env rest (pdfLinks @ [href], lines)
               else each_anchor env rest (pdfLinks, lines)))"

definition parseHTML :: "env \<Rightarrow> string \<Rightarrow> string list \<times> log_entry list" where
  "parseHTML env htmlContent =
     (case anchors env htmlContent of
        None \<Rightarrow> ([], [LogHTMLParseError])
      | Some as \<Rightarrow> each_anchor env as ([], []))"

section \<open>Files\<close>

text \<open>
  \<^verbatim>\<open>fileExists\<close> (lines 233-239), \<^verbatim>\<open>readAFileAsString\<close> (lines 242-248) and
  \<^verbatim>\<open>appendAndWriteToFile\<close> (lines 215-230). Opening with \<^verbatim>\<open>O_APPEND|O_CREATE\<close> creates
  the file when it is absent; a write that fails has written a prefix of its bytes.
\<close>

definition fileExists :: "world \<Rightarrow> string \<Rightarrow> bool" where
  "fileExists w filename = (case fs w filename of Some (File c) \<Rightarrow> True | _ \<Rightarrow> False)"

definition readAFileAsString :: "env \<Rightarrow> string \<Rightarrow> world \<Rightarrow> string outcome" where
  "readAFileAsString env path w =
     (case fs w path of
        Some (File c) \<Rightarrow>
          if read_file_fails env path then Exited (say (LogFatal path) w) else Returned c w
      | _ \<Rightarrow> Exited (say (LogFatal path) w))"

definition appendAndWriteToFile :: "env \<Rightarrow> string \<Rightarrow> string \<Rightarrow> world \<Rightarrow> unit outcome" where
  "appendAndWriteToFile env path content w =
     (case (if open_append_fails env path then None
            else (case fs w path of
                    None \<Rightarrow> Some []
                  | Some (File old) \<Rightarrow> Some old
                  | Some Dir \<Rightarrow> None)) of
        None \<Rightarrow> Exited (say (LogFatal path) w)
      | Some old \<Rightarrow>
          (case append_fails_after env path (content @ [CHR 0x0A]) of
             Some n \<Rightarrow>
               Exited (say (LogFatal path)
                 (w\<lparr>fs := (fs w)(path \<mapsto> File (old @ take n (content @ [CHR 0x0A])))\<rparr>))
           | None \<Rightarrow>
               let w' = w\<lparr>fs := (fs w)(path \<mapsto> File (old @ content @ [CHR 0x0A]))\<rparr>
               in if close_fails env path then Exited (say (LogFatal path) w')
                  else Returned () w'))"

section \<open>One page fetch\<close>

text \<open>\<^verbatim>\<open>getDataFromURL\<close> (lines 251-272): every error of the request is fatal.\<close>

definition getDataFromURL :: "env \<Rightarrow> string \<Rightarrow> string \<Rightarrow> world \<Rightarrow> unit outcome" where
  "getDataFromURL env uri localLocationo w =
     (let w1 = (say (LogScraping uri) w)\<lparr>requests := requests w @ [uri]\<rparr> in
      case http_get env uri of
        None \<Rightarrow> Exited (say (LogFatal uri) w1)
      | Some response \<Rightarrow>
          if body_read_fails response then Exited (say (LogFatal uri) w1)
          else if body_close_fails response then Exited (say (LogFatal uri) w1)
          else appendAndWriteToFile env localLocationo (body response) w1)"

section \<open>One download\<close>

text \<open>
  \<^verbatim>\<open>downloadPDF\<close> (lines 69-135). \<^verbatim>\<open>os.Create\<close> makes the file, empty, or fails and
  changes nothing (it fails on a directory); \<^verbatim>\<open>buf.WriteTo(out)\<close> writes all bytes or
  fails after a prefix of them. The function has no call that removes a file.
\<close>

definition StatusOK :: nat where
  "StatusOK = 200"

definition downloadPDF :: "env \<Rightarrow> string \<Rightarrow> string \<Rightarrow> world \<Rightarrow> bool \<times> world" where
  "downloadPDF env finalURL outputDir w =
     (case sanitizeFileNameFromURL env finalURL of
        (filename, lines) \<Rightarrow>
          let w0 = say_all lines w;
              filePath = filepath_Join env outputDir filename
          in if fileExists w0 filePath then (False, say (LogFileExists filePath) w0)
             else
               let w1 = w0\<lparr>requests := requests w0 @ [finalURL]\<rparr> in
               (case http_get env finalURL of
                  None \<Rightarrow> (False, say (LogGetFailed finalURL) w1)
                | Some resp \<Rightarrow>
                    if status_code resp \<noteq> StatusOK
                    then (False, say (LogBadStatus finalURL (status_code resp)) w1)
                    else if \<not> Contains (content_type resp) ''application/pdf''
                    then (False, say (LogBadContentType finalURL (content_type resp)) w1)
                    else if body_read_fails resp
                    then (False, say (LogReadFailed finalURL) w1)
                    else if length (body resp) = 0
                    then (False, say (LogZeroBytes finalURL) w1)
                    else if create_fails env filePath \<or> fs w1 filePath = Some Dir
                    then (False, say (LogCreateFailed finalURL) w1)
                    else
                      (case write_fails_after env filePath of
                         Some n \<Rightarrow>
                           (False, say (LogWriteFailed finalURL)
                              (w1\<lparr>fs := (fs w1)(filePath \<mapsto> File (take n (body resp)))\<rparr>))
                       | None \<Rightarrow>
                           (True, say (LogSuccess (length (body resp)) finalURL filePath)
                              (w1\<lparr>fs := (fs w1)(filePath \<mapsto> File (body resp))\<rparr>)))))"

section \<open>The two stages of main\<close>

text \<open>
  \<^verbatim>\<open>main\<close> (lines 22-65). \<^verbatim>\<open>fmt.Sprintf("%s%d", baseURL, pageNumber)\<close> writes the page
  number in decimal. \<^verbatim>\<open>isUrlValid\<close> (lines 152-155) asks \<^verbatim>\<open>url.ParseRequestURI\<close>,
  which rejects the empty string ("empty url") before it looks at anything else.
\<close>

definition baseURL :: string where
  "baseURL = ''https://www.avient.com/resources/safety-data-sheets?page=''"

definition localLocation :: string where
  "localLocation = ''avient.com.html''"

definition outputDir :: string where
  "outputDir = ''PDFs/''"

definition origin :: string where
  "origin = ''https://www.avient.com''"

function itoa :: "nat \<Rightarrow> string" where
  "itoa n = (if n < 10 then [char_of (48 + n)] else itoa (n div 10) @ [char_of (48 + n mod 10)])"
  by pat_completeness auto
termination
  by (relation "measure id") auto

declare itoa.simps [simp del]

definition page_urls :: "string list" where
  "page_urls = map (\<lambda>pageNumber. baseURL @ itoa pageNumber) [0..<5001]"

definition isUrlValid :: "env \<Rightarrow> string \<Rightarrow> bool" where
  "isUrlValid env uri = (uri \<noteq> [] \<and> request_uri_ok env uri)"

text \<open>
  The page tasks are goroutines: each runs \<^verbatim>\<open>getDataFromURL\<close>, and the first fatal
  error ends the process, whatever the other tasks were doing. The model runs the tasks
  one after the other in the order the scheduler gives.
\<close>

fun run_page_tasks :: "env \<Rightarrow> string list \<Rightarrow> world \<Rightarrow> unit outcome" where
  "run_page_tasks env [] w = Returned () w"
| "run_page_tasks env (uri # rest) w =
     (case getDataFromURL env uri localLocation w of
        Exited w' \<Rightarrow> Exited w'
      | Returned u w' \<Rightarrow> run_page_tasks env rest w')"

text \<open>
  \<^verbatim>\<open>os.MkdirAll\<close>: an error is logged and the run goes on. The loop of lines 50-62:
  \<^verbatim>\<open>fullURL\<close> is declared without a value, so it is the empty string unless the
  \<^verbatim>\<open>if\<close> assigns it. The loop returns the download tasks it launched, in launch order.
\<close>

definition MkdirAll :: "env \<Rightarrow> string \<Rightarrow> world \<Rightarrow> world" where
  "MkdirAll env dir w =
     (if mkdir_fails env dir then say (LogMkdirError dir) w
      else (case fs w dir of
              Some (File c) \<Rightarrow> say (LogMkdirError dir) w
            | _ \<Rightarrow> w\<lparr>fs := (fs w)(dir \<mapsto> Dir)\<rparr>))"

definition fullURL_of :: "string \<Rightarrow> string" where
  "fullURL_of url = (if \<not> HasPrefix url origin then origin @ url else [])"

fun launch_loop :: "env \<Rightarrow> string list \<Rightarrow> string list \<times> world \<Rightarrow> string list \<times> world" where
  "launch_loop env [] acc = acc"
| "launch_loop env (url # rest) (tasks, w) =
     (let fullURL = fullURL_of url in
      if \<not> isUrlValid env fullURL
      then launch_loop env rest (tasks, say (LogInvalidURL fullURL) w)
      else launch_loop env rest (tasks @ [fullURL], w))"

text \<open>
  Lines 37-62: extraction, deduplication, the output directory, the reversal
  (\<^verbatim>\<open>slices.Reverse\<close>) and the launch loop.
\<close>

definition download_orchestrator :: "env \<Rightarrow> string \<Rightarrow> world \<Rightarrow> string list \<times> world" where
  "download_orchestrator env localDiskHTMLContent w =
     (case parseHTML env localDiskHTMLContent of
        (links, lines) \<Rightarrow>
          let fullURLList = removeDuplicatesFromSlice links;
              w1 = MkdirAll env outputDir (say_all lines w)
          in launch_loop env (rev fullURLList) ([], w1))"

text \<open>The download tasks, run one after the other in the order the scheduler gives.\<close>

fun run_downloads :: "env \<Rightarrow> string list \<Rightarrow> world \<Rightarrow> world" where
  "run_downloads env [] w = w"
| "run_downloads env (finalURL # rest) w =
     run_downloads env rest (snd (downloadPDF env finalURL outputDir w))"

definition main :: "env \<Rightarrow> world \<Rightarrow> unit outcome" where
  "main env w =
     (case (if \<not> fileExists w localLocation
            then run_page_tasks env (schedule env page_urls) w
            else Returned () w) of
        Exited w1 \<Rightarrow> Exited w1
      | Returned u w1 \<Rightarrow>
          if fileExists w1 localLocation then
            (case readAFileAsString env localLocation w1 of
               Exited w2 \<Rightarrow> Exited w2
             | Returned localDiskHTMLContent w2 \<Rightarrow>
                 (case download_orchestrator env localDiskHTMLContent w2 of
                    (tasks, w3) \<Rightarrow> Returned () (run_downloads env (schedule env tasks) w3)))
          else Returned () w1)"

section \<open>Notions used to state the properties\<close>

text \<open>
  The characters of the regular expression \<^verbatim>\<open>[a-z0-9_.-]\<close>, and the test of the link
  extractor on one href: it decodes, and the decoded, lowered href ends with \<^verbatim>\<open>.pdf\<close>.
\<close>

definition name_char :: "char \<Rightarrow> bool" where
  "name_char c = ((CHR ''a'' \<le> c \<and> c \<le> CHR ''z'') \<or> (CHR ''0'' \<le> c \<and> c \<le> CHR ''9'')
     \<or> c = CHR ''_'' \<or> c = CHR ''.'' \<or> c = CHR ''-'')"

definition pdf_href :: "env \<Rightarrow> string \<Rightarrow> bool" where
  "pdf_href env href =
     (case QueryUnescape href of
        (decodedHref, None) \<Rightarrow> HasSuffix (ToLower (unicode_lower env) decodedHref) ''.pdf''
      | (decodedHref, Some e) \<Rightarrow> False)"

text \<open>
  An environment and a world for concrete runs: no file-system call fails, the network
  is unreachable, URLs do not parse, documents have no anchor, paths are joined by
  concatenation and tasks take effect in launch order. A concrete run overrides the
  fields it needs.
\<close>

definition quiet_env :: env where
  "quiet_env = \<lparr>url_Parse = (\<lambda>u. None), request_uri_ok = (\<lambda>u. True),
     unicode_lower = (\<lambda>s. s), filepath_Join = (\<lambda>d f. d @ f), anchors = (\<lambda>h. Some []),
     http_get = (\<lambda>u. None), create_fails = (\<lambda>p. False), write_fails_after = (\<lambda>p. None),
     open_append_fails = (\<lambda>p. False), append_fails_after = (\<lambda>p c. None),
     close_fails = (\<lambda>p. False), read_file_fails = (\<lambda>p. False), mkdir_fails = (\<lambda>p. False),
     schedule = (\<lambda>ts. ts)\<rparr>"

definition empty_world :: world where
  "empty_world = \<lparr>fs = (\<lambda>p. None), requests = [], logged = []\<rparr>"

definition pdf_response :: "string \<Rightarrow> response" where
  "pdf_response bytes = \<lparr>status_code = 200, content_type = ''application/pdf'', body = bytes,
     body_read_fails = False, body_close_fails = False\<rparr>"

text \<open>
  The markup of the specification's example, a download URL with its parsed path, and an
  environment that knows this one URL and answers its GET request with \<open>r\<close>.
\<close>

definition example_markup :: string where
  \<open>example_markup =
     ''<a href="/doc/A.PDF">x</a><a href="/img/b.png">y</a><a href="c.pdf">z</a>''\<close>

definition example_env :: env where
  "example_env = quiet_env\<lparr>anchors :=
     (\<lambda>h. if h = example_markup
          then Some [Some ''/doc/A.PDF'', Some ''/img/b.png'', Some ''c.pdf''] else None)\<rparr>"

definition a_pdf_url :: string where
  "a_pdf_url = ''https://www.avient.com/a.pdf''"

definition a_pdf_env :: "response option \<Rightarrow> env" where
  "a_pdf_env r = quiet_env\<lparr>url_Parse := (\<lambda>u. if u = a_pdf_url then Some ''/a.pdf'' else None),
     http_get := (\<lambda>u. if u = a_pdf_url then r else None)\<rparr>"

section \<open>Auxiliary functions of the proofs\<close>

text \<open>The loop, started with the seen-set \<open>S\<close>, as a function of the remaining input.\<close>

fun unseen :: "string set \<Rightarrow> string list \<Rightarrow> string list" where
  "unseen S [] = []"
| "unseen S (x # xs) = (if x \<in> S then unseen S xs else x # unseen (insert x S) xs)"

section \<open>Properties of the deduplicator\<close>

lemma dedup_loop_unseen:
  "dedup_loop xs check acc = acc @ unseen {x. check x} xs"
proof (induction xs arbitrary: check acc)
  case Nil
  show ?case by simp
next
  case (Cons x xs)
  have upd: "{y. (check(x := True)) y} = insert x {y. check y}"
    by auto
  show ?case
  proof (cases "check x")
    case True
    then show ?thesis by (simp add: Cons.IH)
  next
    case False
    then have "dedup_loop (x # xs) check acc = dedup_loop xs (check(x := True)) (acc @ [x])"
      by simp
    also have "\<dots> = (acc @ [x]) @ unseen {y. (check(x := True)) y} xs"
      by (rule Cons.IH)
    also have "\<dots> = acc @ unseen {y. check y} (x # xs)"
      using False by (simp only: upd) simp
    finally show ?thesis .
  qed
qed

lemma removeDuplicates_unseen: "removeDuplicatesFromSlice xs = unseen {} xs"
  by (simp add: removeDuplicatesFromSlice_def dedup_loop_unseen)

lemma set_unseen: "set (unseen S xs) = set xs - S"
  by (induction xs arbitrary: S) auto

lemma distinct_unseen: "distinct (unseen S xs)"
  by (induction xs arbitrary: S) (auto simp: set_unseen)

lemma unseen_disjoint: "set xs \<inter> S = {} \<Longrightarrow> distinct xs \<Longrightarrow> unseen S xs = xs"
  by (induction xs arbitrary: S) auto

lemma subseq_unseen: "subseq (unseen S xs) xs"
  by (induction xs arbitrary: S) auto

lemma unseen_positions:
  "unseen S xs =
     map (\<lambda>i. xs ! i) (filter (\<lambda>i. xs ! i \<notin> S \<union> set (take i xs)) [0..<length xs])"
proof (induction xs arbitrary: S)
  case Nil
  show ?case by simp
next
  case (Cons x xs)
  have shift: "[0..<length (x # xs)] = 0 # map Suc [0..<length xs]"
    by (simp add: upt_conv_Cons map_Suc_upt del: upt_Suc)
  have tl_eq: "map (\<lambda>i. (x # xs) ! i)
        (filter (\<lambda>i. (x # xs) ! i \<notin> S \<union> set (take i (x # xs))) (map Suc [0..<length xs]))
      = map (\<lambda>i. xs ! i)
        (filter (\<lambda>i. xs ! i \<notin> insert x S \<union> set (take i xs)) [0..<length xs])"
    by (simp add: filter_map comp_def conj_ac)
  show ?case
  proof (cases "x \<in> S")
    case True
    then have ins: "insert x S = S" by auto
    have "unseen S (x # xs) = unseen S xs" using True by simp
    also have "\<dots> = map (\<lambda>i. xs ! i)
        (filter (\<lambda>i. xs ! i \<notin> insert x S \<union> set (take i xs)) [0..<length xs])"
      by (simp only: Cons.IH [of S] ins)
    finally show ?thesis
      using True by (simp only: shift tl_eq [symmetric]) simp
  next
    case False
    have "unseen S (x # xs) = x # unseen (insert x S) xs" using False by simp
    also have "\<dots> = x # map (\<lambda>i. xs ! i)
        (filter (\<lambda>i. xs ! i \<notin> insert x S \<union> set (take i xs)) [0..<length xs])"
      by (simp only: Cons.IH [of "insert x S"])
    finally show ?thesis
      using False by (simp only: shift tl_eq [symmetric]) simp
  qed
qed

lemma removeDuplicates_positions: "removeDuplicatesFromSlice xs = first_occurrences xs"
  by (simp add: removeDuplicates_unseen first_occurrences_def unseen_positions)

text \<open>
  C9. For every input sequence of strings, deduplication returns exactly the first
  occurrences of the input in their original order (so the result is a subsequence of
  the input with the same set of values), the result has no repeated value, and
  deduplication is idempotent.
\<close>

theorem removeDuplicates_first_occurrences_distinct_idempotent:
  "removeDuplicatesFromSlice xs = first_occurrences xs
   \<and> subseq (removeDuplicatesFromSlice xs) xs
   \<and> set (removeDuplicatesFromSlice xs) = set xs
   \<and> distinct (removeDuplicatesFromSlice xs)
   \<and> removeDuplicatesFromSlice (removeDuplicatesFromSlice xs) = removeDuplicatesFromSlice xs"
proof -
  have a: "removeDuplicatesFromSlice xs = first_occurrences xs"
    by (rule removeDuplicates_positions)
  have b: "subseq (removeDuplicatesFromSlice xs) xs"
    by (simp add: removeDuplicates_unseen subseq_unseen)
  have c: "set (removeDuplicatesFromSlice xs) = set xs"
    by (simp add: removeDuplicates_unseen set_unseen)
  have d: "distinct (removeDuplicatesFromSlice xs)"
    by (simp add: removeDuplicates_unseen distinct_unseen)
  have e: "removeDuplicatesFromSlice (removeDuplicatesFromSlice xs) = removeDuplicatesFromSlice xs"
    by (simp add: removeDuplicates_unseen unseen_disjoint distinct_unseen)
  from a b c d e show ?thesis by blast
qed

section \<open>Properties of the URL sanitizer\<close>

lemma allowed_ascii: "allowed c \<Longrightarrow> is_ascii c"
  by (auto simp: allowed_def is_word_def is_ascii_def less_eq_char_def)

lemma lower_allowed: "allowed c \<Longrightarrow> name_char (lower_byte c)"
  by (auto simp: allowed_def is_word_def name_char_def lower_byte_def less_eq_char_def)

lemma lower_name_char: "name_char c \<Longrightarrow> lower_byte c = c"
  by (auto simp: name_char_def lower_byte_def less_eq_char_def)

lemma name_char_ascii: "name_char c \<Longrightarrow> is_ascii c"
  by (auto simp: name_char_def is_ascii_def less_eq_char_def)

lemma allowed_Replace: "list_all allowed (ReplaceAllInvalid s)"
  by (induction s rule: ReplaceAllInvalid.induct) (auto simp: allowed_def is_word_def)

lemma list_all_trimRight: "list_all P s \<Longrightarrow> list_all P (trimRightByte s c)"
proof (induction s c rule: trimRightByte.induct)
  case (1 s c)
  show ?case
  proof (cases "s \<noteq> [] \<and> last s = c")
    case True
    have "list_all P (butlast s)"
      using "1.prems" by (auto simp: list_all_iff dest: in_set_butlastD)
    then show ?thesis
      using True "1.IH" by (subst trimRightByte.simps) simp
  next
    case False
    then show ?thesis using "1.prems" by (subst trimRightByte.simps) auto
  qed
qed

lemma list_all_trimLeft: "list_all P s \<Longrightarrow> list_all P (trimLeftByte s c)"
  by (induction s) auto

lemma list_all_Trim: "list_all P s \<Longrightarrow> list_all P (Trim s c)"
  by (simp add: Trim_def list_all_trimRight list_all_trimLeft)

lemma ToLower_allowed:
  assumes "list_all allowed s"
  shows "ToLower f s = map lower_byte s" and "list_all name_char (ToLower f s)"
proof -
  have "list_all is_ascii s"
    using assms by (auto simp: list_all_iff allowed_ascii)
  then show "ToLower f s = map lower_byte s" by (simp add: ToLower_def)
  then show "list_all name_char (ToLower f s)"
    using assms by (auto simp: list_all_iff lower_allowed)
qed

lemma ToLower_name:
  assumes "list_all name_char s"
  shows "ToLower f s = s"
proof -
  have "list_all is_ascii s"
    using assms by (auto simp: list_all_iff name_char_ascii)
  then have "ToLower f s = map lower_byte s" by (simp add: ToLower_def)
  also have "\<dots> = s" using assms by (induction s) (auto simp: lower_name_char)
  finally show ?thesis .
qed

lemma sanitize_name:
  "fst (sanitizeFileNameFromURL env rawURL) \<noteq> [] \<and>
   list_all name_char (fst (sanitizeFileNameFromURL env rawURL))"
proof (cases "url_Parse env rawURL")
  case None
  then show ?thesis by (simp add: sanitizeFileNameFromURL_def name_char_def)
next
  case (Some p)
  obtain d e where q: "QueryUnescape (Base p) = (d, e)" by (cases "QueryUnescape (Base p)")
  let ?safe = "Trim (ReplaceAllInvalid d) (CHR ''_'')"
  have al: "list_all allowed ?safe" by (simp add: list_all_Trim allowed_Replace)
  show ?thesis
  proof (cases "?safe = []")
    case True
    then show ?thesis using Some q by (simp add: sanitizeFileNameFromURL_def name_char_def)
  next
    case False
    have "ToLower (unicode_lower env) ?safe \<noteq> []"
      using False ToLower_allowed(1) [OF al] by simp
    then show ?thesis
      using Some q False ToLower_allowed(2) [OF al]
      by (simp add: sanitizeFileNameFromURL_def Let_def)
  qed
qed

lemma trimRight_all: "list_all (\<lambda>x. x = c) s \<Longrightarrow> trimRightByte s c = []"
proof (induction s rule: rev_induct)
  case Nil
  show ?case by (subst trimRightByte.simps) simp
next
  case (snoc x xs)
  then show ?case by (subst trimRightByte.simps) simp
qed

lemma Replace_all_underscore:
  "list_all (\<lambda>c. \<not> allowed c) s \<Longrightarrow> list_all (\<lambda>c. c = CHR ''_'') (ReplaceAllInvalid s)"
proof (induction s rule: ReplaceAllInvalid.induct)
  case 1
  show ?case by simp
next
  case (2 c s)
  have "list_all (\<lambda>c. \<not> allowed c) (drop (rune_width (c # s) - 1) s)"
    using "2.prems" by (auto simp: list_all_iff dest: in_set_dropD)
  then show ?case using 2 by auto
qed

lemma Trim_all_underscore:
  "list_all (\<lambda>c. \<not> allowed c) s \<Longrightarrow> Trim (ReplaceAllInvalid s) (CHR ''_'') = []"
  by (simp add: Trim_def trimRight_all Replace_all_underscore)

lemma QueryUnescape_error: "snd (QueryUnescape s) \<noteq> None \<Longrightarrow> fst (QueryUnescape s) = []"
  by (auto simp: QueryUnescape_def split: option.splits)

lemma sanitize_disallowed_only:
  assumes "url_Parse env rawURL = Some p" and "QueryUnescape (Base p) = (d, None)"
    and "list_all (\<lambda>c. \<not> allowed c) d"
  shows "fst (sanitizeFileNameFromURL env rawURL) = ''downloaded_file''"
  using assms by (simp add: sanitizeFileNameFromURL_def Trim_all_underscore)

lemma sanitize_empty_path:
  assumes "url_Parse env rawURL = Some []"
  shows "fst (sanitizeFileNameFromURL env rawURL) = ''.''"
proof -
  have b: "Base [] = ''.''" by (simp add: Base_def)
  have q: "QueryUnescape ''.'' = (''.'', None)" by (simp add: QueryUnescape_def)
  have t: "Trim (ReplaceAllInvalid ''.'') (CHR ''_'') = ''.''" by code_simp
  have l: "ToLower (unicode_lower env) ''.'' = ''.''"
    by (rule ToLower_name) (simp add: name_char_def)
  show ?thesis using assms b q t l by (simp add: sanitizeFileNameFromURL_def)
qed

text \<open>
  C8, as the code has it. For every URL the sanitizer returns a non-empty name whose
  characters all match \<^verbatim>\<open>[a-z0-9_.-]\<close> and that lowering does not change; a string the
  URL parser rejects gives exactly \<^verbatim>\<open>invalid_filename\<close>; a URL whose path has a base name
  (\<^verbatim>\<open>path.Base\<close>: the last element once trailing slashes are dropped, \<^verbatim>\<open>/\<close> for a
  path of slashes) that decodes to disallowed characters only gives exactly
  \<^verbatim>\<open>downloaded_file\<close>; a URL with the empty path has the base name \<^verbatim>\<open>.\<close> and gives
  \<^verbatim>\<open>.\<close>.
\<close>

theorem sanitize_output_format:
  "fst (sanitizeFileNameFromURL env rawURL) \<noteq> []
   \<and> list_all name_char (fst (sanitizeFileNameFromURL env rawURL))
   \<and> ToLower (unicode_lower env) (fst (sanitizeFileNameFromURL env rawURL))
       = fst (sanitizeFileNameFromURL env rawURL)
   \<and> (url_Parse env rawURL = None \<longrightarrow>
        fst (sanitizeFileNameFromURL env rawURL) = ''invalid_filename'')
   \<and> (\<forall>p d. url_Parse env rawURL = Some p \<and> QueryUnescape (Base p) = (d, None)
          \<and> list_all (\<lambda>c. \<not> allowed c) d \<longrightarrow>
        fst (sanitizeFileNameFromURL env rawURL) = ''downloaded_file'')
   \<and> (url_Parse env rawURL = Some [] \<longrightarrow> fst (sanitizeFileNameFromURL env rawURL) = ''.'')"
proof -
  have a: "fst (sanitizeFileNameFromURL env rawURL) \<noteq> []"
    and b: "list_all name_char (fst (sanitizeFileNameFromURL env rawURL))"
    using sanitize_name [of env rawURL] by simp_all
  have c: "ToLower (unicode_lower env) (fst (sanitizeFileNameFromURL env rawURL))
       = fst (sanitizeFileNameFromURL env rawURL)"
    using b by (rule ToLower_name)
  have d: "url_Parse env rawURL = None \<longrightarrow>
        fst (sanitizeFileNameFromURL env rawURL) = ''invalid_filename''"
    by (simp add: sanitizeFileNameFromURL_def)
  have e: "\<forall>p d. url_Parse env rawURL = Some p \<and> QueryUnescape (Base p) = (d, None)
          \<and> list_all (\<lambda>c. \<not> allowed c) d \<longrightarrow>
        fst (sanitizeFileNameFromURL env rawURL) = ''downloaded_file''"
    using sanitize_disallowed_only by blast
  have f: "url_Parse env rawURL = Some [] \<longrightarrow> fst (sanitizeFileNameFromURL env rawURL) = ''.''"
    using sanitize_empty_path by blast
  from a b c d e f show ?thesis by blast
qed

text \<open>
  The theorem at three inputs: a string the parser rejects, the path \<^verbatim>\<open>/%20%21\<close> whose
  base name decodes to a space and an exclamation mark, and the path \<^verbatim>\<open>/a.pdf\<close>.
\<close>

theorem sanitize_output_format_witness:
  "fst (sanitizeFileNameFromURL quiet_env ''http://[::1'') = ''invalid_filename''
   \<and> fst (sanitizeFileNameFromURL (quiet_env\<lparr>url_Parse := (\<lambda>u. Some ''/%20%21'')\<rparr>)
         ''https://www.avient.com/%2520%2521'') = ''downloaded_file''
   \<and> list_all name_char (fst (sanitizeFileNameFromURL (a_pdf_env None) a_pdf_url))"
proof -
  have p1: "url_Parse quiet_env ''http://[::1'' = None"
    by (simp add: quiet_env_def)
  have p2: "url_Parse (quiet_env\<lparr>url_Parse := (\<lambda>u. Some ''/%20%21'')\<rparr>)
      ''https://www.avient.com/%2520%2521'' = Some ''/%20%21''"
    by simp
  have q2: "QueryUnescape (Base ''/%20%21'') = ('' !'', None)" by code_simp
  have d2: "list_all (\<lambda>c. \<not> allowed c) '' !''" by code_simp
  show ?thesis
    using sanitize_output_format [of quiet_env "''http://[::1''"] p1
      sanitize_output_format [of "quiet_env\<lparr>url_Parse := (\<lambda>u. Some ''/%20%21'')\<rparr>"
        "''https://www.avient.com/%2520%2521''"] p2 q2 d2
      sanitize_output_format [of "a_pdf_env None" a_pdf_url]
    by blast
qed

text \<open>
  The claim as the specification states it fails at the empty path: the relative link
  \<^verbatim>\<open>c.pdf\<close> is resolved to \<^verbatim>\<open>https://www.avient.comc.pdf\<close>, whose host is
  \<^verbatim>\<open>www.avient.comc.pdf\<close> and whose path is empty, and the sanitizer returns \<^verbatim>\<open>.\<close>,
  not \<^verbatim>\<open>downloaded_file\<close>.
\<close>

theorem sanitize_empty_path_counterexample:
  "url_Parse (quiet_env\<lparr>url_Parse := (\<lambda>u. Some [])\<rparr>) ''https://www.avient.comc.pdf'' = Some []
   \<and> fst (sanitizeFileNameFromURL (quiet_env\<lparr>url_Parse := (\<lambda>u. Some [])\<rparr>)
         ''https://www.avient.comc.pdf'') = ''.''
   \<and> fst (sanitizeFileNameFromURL (quiet_env\<lparr>url_Parse := (\<lambda>u. Some [])\<rparr>)
         ''https://www.avient.comc.pdf'') \<noteq> ''downloaded_file''"
  by code_simp

text \<open>
  C3. When the base name of the path fails percent-decoding, the sanitizer logs the
  error and goes on, but with the empty string that \<^verbatim>\<open>QueryUnescape\<close> returned with the
  error: the result is \<^verbatim>\<open>downloaded_file\<close>, whatever the undecoded segment was.
\<close>

theorem sanitize_decode_failure:
  assumes "url_Parse env rawURL = Some p" and "snd (QueryUnescape (Base p)) = Some e"
  shows "sanitizeFileNameFromURL env rawURL = (''downloaded_file'', [LogDecodeFileNameError e])"
proof -
  obtain d where q: "QueryUnescape (Base p) = (d, Some e)"
    using assms(2) by (cases "QueryUnescape (Base p)") auto
  have "d = []" using QueryUnescape_error [of "Base p"] q by simp
  then show ?thesis
    using assms(1) q by (simp add: sanitizeFileNameFromURL_def Trim_def)
qed

text \<open>
  The URL \<^verbatim>\<open>https://www.avient.com/100%25.pdf\<close> has the path \<^verbatim>\<open>/100%.pdf\<close>: decoding the
  segment \<^verbatim>\<open>100%.pdf\<close> fails at \<^verbatim>\<open>%.p\<close>. The undecoded segment would give the name
  \<^verbatim>\<open>100_.pdf\<close>; the sanitizer returns \<^verbatim>\<open>downloaded_file\<close>.
\<close>

theorem sanitize_decode_failure_witness:
  "sanitizeFileNameFromURL (quiet_env\<lparr>url_Parse := (\<lambda>u. Some ''/100%.pdf'')\<rparr>)
     ''https://www.avient.com/100%25.pdf''
   = (''downloaded_file'', [LogDecodeFileNameError (EscapeError ''%.p'')])
   \<and> Trim (ReplaceAllInvalid ''100%.pdf'') (CHR ''_'') = ''100_.pdf''"
proof -
  have b: "Base ''/100%.pdf'' = ''100%.pdf''" by code_simp
  have q: "snd (QueryUnescape ''100%.pdf'') = Some (EscapeError ''%.p'')" by code_simp
  have t: "Trim (ReplaceAllInvalid ''100%.pdf'') (CHR ''_'') = ''100_.pdf''" by code_simp
  show ?thesis
    using sanitize_decode_failure [of "quiet_env\<lparr>url_Parse := (\<lambda>u. Some ''/100%.pdf'')\<rparr>"
        "''https://www.avient.com/100%25.pdf''" "''/100%.pdf''" "EscapeError ''%.p''"] b q t
    by simp
qed

section \<open>Properties of the link extractor\<close>

lemma each_anchor_filter:
  "fst (each_anchor env as (pdfLinks, lines)) =
     pdfLinks @ filter (pdf_href env) (map the (filter (\<lambda>a. a \<noteq> None) as))"
proof (induction as arbitrary: pdfLinks lines)
  case Nil
  show ?case by simp
next
  case (Cons a as)
  show ?case
  proof (cases a)
    case None
    then show ?thesis by (simp add: Cons.IH)
  next
    case (Some href)
    obtain d e where q: "QueryUnescape href = (d, e)" by (cases "QueryUnescape href")
    show ?thesis
      using Some q by (cases e) (simp_all add: Cons.IH pdf_href_def)
  qed
qed

lemma parseHTML_filter:
  "fst (parseHTML env htmlContent) =
     (case anchors env htmlContent of
        None \<Rightarrow> []
      | Some as \<Rightarrow> filter (pdf_href env) (map the (filter (\<lambda>a. a \<noteq> None) as)))"
  by (simp add: parseHTML_def each_anchor_filter split: option.splits)

text \<open>
  C7. Link extraction returns, in document order, the original href of every anchor
  whose href decodes and whose decoded, lowered href ends with \<^verbatim>\<open>.pdf\<close>, and no other
  anchor's; a document that does not parse gives no link.
\<close>

theorem parseHTML_pdf_anchors:
  "fst (parseHTML env htmlContent) =
     (case anchors env htmlContent of
        None \<Rightarrow> []
      | Some as \<Rightarrow> filter (pdf_href env) (map the (filter (\<lambda>a. a \<noteq> None) as)))"
  by (rule parseHTML_filter)

text \<open>
  On the markup of the specification's example, whose three anchors have the hrefs
  \<^verbatim>\<open>/doc/A.PDF\<close>, \<^verbatim>\<open>/img/b.png\<close> and \<^verbatim>\<open>c.pdf\<close>, extraction returns the first and the third.
\<close>

theorem parseHTML_pdf_anchors_witness:
  "fst (parseHTML example_env example_markup) = [''/doc/A.PDF'', ''c.pdf'']"
proof -
  have a: "pdf_href example_env ''/doc/A.PDF''" by code_simp
  have b: "\<not> pdf_href example_env ''/img/b.png''" by code_simp
  have c: "pdf_href example_env ''c.pdf''" by code_simp
  have d: "anchors example_env example_markup
      = Some [Some ''/doc/A.PDF'', Some ''/img/b.png'', Some ''c.pdf'']"
    by (simp add: example_env_def)
  show ?thesis
    using parseHTML_pdf_anchors [of example_env example_markup] a b c d by simp
qed

section \<open>Properties of one download\<close>

lemma fileExists_say_all [simp]: "fileExists (say_all es w) p = fileExists w p"
  by (simp add: fileExists_def say_all_def)

lemma fs_say [simp]: "fs (say e w) = fs w"
  by (simp add: say_def)

lemma fs_say_all [simp]: "fs (say_all es w) = fs w"
  by (simp add: say_all_def)

lemma requests_say [simp]: "requests (say e w) = requests w"
  by (simp add: say_def)

lemma requests_say_all [simp]: "requests (say_all es w) = requests w"
  by (simp add: say_all_def)

lemma logged_say [simp]: "logged (say e w) = logged w @ [e]"
  by (simp add: say_def)

text \<open>
  C5. When the sanitized target file name already names a file of the output directory,
  the download task returns false, issues no request and leaves the file system as it
  was; its last log line says that the file exists.
\<close>

theorem downloadPDF_skips_existing_file:
  assumes "fileExists w (filepath_Join env dir (fst (sanitizeFileNameFromURL env finalURL)))"
  shows "fst (downloadPDF env finalURL dir w) = False
    \<and> requests (snd (downloadPDF env finalURL dir w)) = requests w
    \<and> fs (snd (downloadPDF env finalURL dir w)) = fs w
    \<and> last (logged (snd (downloadPDF env finalURL dir w)))
        = LogFileExists (filepath_Join env dir (fst (sanitizeFileNameFromURL env finalURL)))"
proof -
  obtain filename lines where s: "sanitizeFileNameFromURL env finalURL = (filename, lines)"
    by (cases "sanitizeFileNameFromURL env finalURL")
  have ex: "fileExists (say_all lines w) (filepath_Join env dir filename)"
    using assms s by simp
  have "downloadPDF env finalURL dir w
      = (False, say (LogFileExists (filepath_Join env dir filename)) (say_all lines w))"
    using ex by (simp add: downloadPDF_def s Let_def)
  then show ?thesis using s by simp
qed

text \<open>
  A world in which \<^verbatim>\<open>PDFs/a.pdf\<close> exists, and a server that would deliver the document:
  the task for \<^verbatim>\<open>https://www.avient.com/a.pdf\<close> issues no request.
\<close>

theorem downloadPDF_skips_existing_file_witness:
  "fst (downloadPDF (a_pdf_env (Some (pdf_response ''%PDF''))) a_pdf_url outputDir
         (empty_world\<lparr>fs := (fs empty_world)(''PDFs/a.pdf'' \<mapsto> File ''old'')\<rparr>)) = False
   \<and> requests (snd (downloadPDF (a_pdf_env (Some (pdf_response ''%PDF''))) a_pdf_url outputDir
         (empty_world\<lparr>fs := (fs empty_world)(''PDFs/a.pdf'' \<mapsto> File ''old'')\<rparr>))) = []"
proof -
  have h: "fileExists (empty_world\<lparr>fs := (fs empty_world)(''PDFs/a.pdf'' \<mapsto> File ''old'')\<rparr>)
      (filepath_Join (a_pdf_env (Some (pdf_response ''%PDF''))) outputDir
         (fst (sanitizeFileNameFromURL (a_pdf_env (Some (pdf_response ''%PDF''))) a_pdf_url)))"
    by code_simp
  show ?thesis
    using downloadPDF_skips_existing_file [OF h] by (simp add: empty_world_def)
qed

text \<open>
  C6. When the response has status OK and a content type containing
  \<^verbatim>\<open>application/pdf\<close> but a body of length zero, the download task returns false and the
  file system is as it was: no file is created.
\<close>

theorem downloadPDF_zero_bytes_no_file:
  assumes "http_get env finalURL = Some resp"
    and "status_code resp = StatusOK"
    and "Contains (content_type resp) ''application/pdf''"
    and "length (body resp) = 0"
  shows "fst (downloadPDF env finalURL dir w) = False
    \<and> fs (snd (downloadPDF env finalURL dir w)) = fs w"
proof -
  obtain filename lines where s: "sanitizeFileNameFromURL env finalURL = (filename, lines)"
    by (cases "sanitizeFileNameFromURL env finalURL")
  show ?thesis
    using assms by (simp add: downloadPDF_def s Let_def)
qed

theorem downloadPDF_zero_bytes_no_file_witness:
  "fst (downloadPDF (a_pdf_env (Some (pdf_response []))) a_pdf_url outputDir empty_world) = False
   \<and> fs (snd (downloadPDF (a_pdf_env (Some (pdf_response []))) a_pdf_url outputDir empty_world))
        ''PDFs/a.pdf'' = None
   \<and> last (logged (snd (downloadPDF (a_pdf_env (Some (pdf_response []))) a_pdf_url outputDir
        empty_world))) = LogZeroBytes a_pdf_url"
proof -
  have g: "http_get (a_pdf_env (Some (pdf_response []))) a_pdf_url = Some (pdf_response [])"
    by (simp add: a_pdf_env_def)
  have st: "status_code (pdf_response []) = StatusOK"
    by (simp add: pdf_response_def StatusOK_def)
  have ct: "Contains (content_type (pdf_response [])) ''application/pdf''"
    by code_simp
  have b: "length (body (pdf_response [])) = 0"
    by (simp add: pdf_response_def)
  have l: "last (logged (snd (downloadPDF (a_pdf_env (Some (pdf_response []))) a_pdf_url outputDir
        empty_world))) = LogZeroBytes a_pdf_url"
    by code_simp
  show ?thesis
    using downloadPDF_zero_bytes_no_file [OF g st ct b, of outputDir empty_world] l
    by (simp add: empty_world_def)
qed

lemma downloadPDF_good_response:
  assumes s: "sanitizeFileNameFromURL env finalURL = (filename, lines)"
    and ne: "\<not> fileExists w (filepath_Join env dir filename)"
    and g: "http_get env finalURL = Some resp"
    and ok: "status_code resp = StatusOK" "Contains (content_type resp) ''application/pdf''"
       "\<not> body_read_fails resp" "body resp \<noteq> []"
  shows "downloadPDF env finalURL dir w =
    (let filePath = filepath_Join env dir filename;
         w1 = (say_all lines w)\<lparr>requests := requests w @ [finalURL]\<rparr>
     in if create_fails env filePath \<or> fs w filePath = Some Dir
        then (False, say (LogCreateFailed finalURL) w1)
        else (case write_fails_after env filePath of
                Some n \<Rightarrow> (False, say (LogWriteFailed finalURL)
                            (w1\<lparr>fs := (fs w)(filePath \<mapsto> File (take n (body resp)))\<rparr>))
              | None \<Rightarrow> (True, say (LogSuccess (length (body resp)) finalURL filePath)
                            (w1\<lparr>fs := (fs w)(filePath \<mapsto> File (body resp))\<rparr>))))"
  using ne g ok by (simp add: downloadPDF_def s Let_def split: option.splits)

lemma downloadPDF_success:
  assumes "fst (downloadPDF env finalURL dir w)"
  shows "\<exists>resp. http_get env finalURL = Some resp \<and> body resp \<noteq> []
     \<and> fs (snd (downloadPDF env finalURL dir w))
          (filepath_Join env dir (fst (sanitizeFileNameFromURL env finalURL)))
        = Some (File (body resp))"
proof -
  obtain filename lines where s: "sanitizeFileNameFromURL env finalURL = (filename, lines)"
    by (cases "sanitizeFileNameFromURL env finalURL")
  show ?thesis
    using assms
    by (auto simp: downloadPDF_def s Let_def split: option.splits if_splits)
qed

text \<open>
  C2, as the code has it. Take a download task whose target file does not exist and
  whose response is OK, is a PDF and has a non-empty body that was read completely.
  If creating the target file fails, the task logs, returns false and the file system is
  as it was. If the write fails after \<open>n\<close> bytes, the task logs and returns false, and the
  file it created stays, holding the first \<open>n\<close> bytes of the body. A task that returns
  true leaves the target file holding the complete, non-empty body.
\<close>

theorem downloadPDF_create_write_failure:
  assumes "\<not> fileExists w (filepath_Join env dir (fst (sanitizeFileNameFromURL env finalURL)))"
    and "http_get env finalURL = Some resp"
    and "status_code resp = StatusOK"
    and "Contains (content_type resp) ''application/pdf''"
    and "\<not> body_read_fails resp"
    and "body resp \<noteq> []"
  shows "(create_fails env (filepath_Join env dir (fst (sanitizeFileNameFromURL env finalURL)))
          \<or> fs w (filepath_Join env dir (fst (sanitizeFileNameFromURL env finalURL))) = Some Dir
        \<longrightarrow> fst (downloadPDF env finalURL dir w) = False
          \<and> fs (snd (downloadPDF env finalURL dir w)) = fs w
          \<and> last (logged (snd (downloadPDF env finalURL dir w))) = LogCreateFailed finalURL)
    \<and> (\<forall>n. \<not> create_fails env (filepath_Join env dir (fst (sanitizeFileNameFromURL env finalURL)))
          \<and> fs w (filepath_Join env dir (fst (sanitizeFileNameFromURL env finalURL))) \<noteq> Some Dir
          \<and> write_fails_after env
               (filepath_Join env dir (fst (sanitizeFileNameFromURL env finalURL))) = Some n
        \<longrightarrow> fst (downloadPDF env finalURL dir w) = False
          \<and> fs (snd (downloadPDF env finalURL dir w))
              = (fs w)(filepath_Join env dir (fst (sanitizeFileNameFromURL env finalURL))
                   \<mapsto> File (take n (body resp)))
          \<and> last (logged (snd (downloadPDF env finalURL dir w))) = LogWriteFailed finalURL)
    \<and> (fst (downloadPDF env finalURL dir w)
        \<longrightarrow> fs (snd (downloadPDF env finalURL dir w))
              (filepath_Join env dir (fst (sanitizeFileNameFromURL env finalURL)))
            = Some (File (body resp)))"
proof -
  obtain filename lines where s: "sanitizeFileNameFromURL env finalURL = (filename, lines)"
    by (cases "sanitizeFileNameFromURL env finalURL")
  have ne: "\<not> fileExists w (filepath_Join env dir filename)"
    using assms(1) s by simp
  note d = downloadPDF_good_response [OF s ne assms(2,3,4,5,6)]
  have a: "create_fails env (filepath_Join env dir filename)
          \<or> fs w (filepath_Join env dir filename) = Some Dir
        \<longrightarrow> fst (downloadPDF env finalURL dir w) = False
          \<and> fs (snd (downloadPDF env finalURL dir w)) = fs w
          \<and> last (logged (snd (downloadPDF env finalURL dir w))) = LogCreateFailed finalURL"
    by (auto simp: d Let_def)
  have b: "\<forall>n. \<not> create_fails env (filepath_Join env dir filename)
          \<and> fs w (filepath_Join env dir filename) \<noteq> Some Dir
          \<and> write_fails_after env (filepath_Join env dir filename) = Some n
        \<longrightarrow> fst (downloadPDF env finalURL dir w) = False
          \<and> fs (snd (downloadPDF env finalURL dir w))
              = (fs w)(filepath_Join env dir filename \<mapsto> File (take n (body resp)))
          \<and> last (logged (snd (downloadPDF env finalURL dir w))) = LogWriteFailed finalURL"
    by (auto simp: d Let_def)
  have c: "fst (downloadPDF env finalURL dir w)
        \<longrightarrow> fs (snd (downloadPDF env finalURL dir w)) (filepath_Join env dir filename)
            = Some (File (body resp))"
    using downloadPDF_success [of env finalURL dir w] assms(2) s by auto
  from a b c show ?thesis by (simp add: s)
qed

text \<open>
  The write of the four bytes \<^verbatim>\<open>%PDF\<close> fails after two of them: the task returns false
  and \<^verbatim>\<open>PDFs/a.pdf\<close> stays, holding \<^verbatim>\<open>%P\<close>.
\<close>

theorem downloadPDF_create_write_failure_witness:
  "fst (downloadPDF ((a_pdf_env (Some (pdf_response ''%PDF'')))\<lparr>write_fails_after := (\<lambda>p. Some 2)\<rparr>)
         a_pdf_url outputDir empty_world) = False
   \<and> fs (snd (downloadPDF
         ((a_pdf_env (Some (pdf_response ''%PDF'')))\<lparr>write_fails_after := (\<lambda>p. Some 2)\<rparr>)
         a_pdf_url outputDir empty_world)) ''PDFs/a.pdf'' = Some (File ''%P'')"
proof -
  let ?env = "(a_pdf_env (Some (pdf_response ''%PDF'')))\<lparr>write_fails_after := (\<lambda>p. Some 2)\<rparr>"
  have p: "filepath_Join ?env outputDir (fst (sanitizeFileNameFromURL ?env a_pdf_url)) = ''PDFs/a.pdf''"
    by code_simp
  have ne: "\<not> fileExists empty_world
      (filepath_Join ?env outputDir (fst (sanitizeFileNameFromURL ?env a_pdf_url)))"
    by code_simp
  have g: "http_get ?env a_pdf_url = Some (pdf_response ''%PDF'')"
    by (simp add: a_pdf_env_def)
  have st: "status_code (pdf_response ''%PDF'') = StatusOK"
    by (simp add: pdf_response_def StatusOK_def)
  have ct: "Contains (content_type (pdf_response ''%PDF'')) ''application/pdf''"
    by code_simp
  have rd: "\<not> body_read_fails (pdf_response ''%PDF'')"
    by (simp add: pdf_response_def)
  have bd: "body (pdf_response ''%PDF'') \<noteq> []"
    by (simp add: pdf_response_def)
  have cr: "\<not> create_fails ?env ''PDFs/a.pdf''"
    by (simp add: a_pdf_env_def quiet_env_def)
  have dr: "fs empty_world ''PDFs/a.pdf'' \<noteq> Some Dir"
    by (simp add: empty_world_def)
  have wf: "write_fails_after ?env ''PDFs/a.pdf'' = Some 2"
    by simp
  have tk: "take 2 (body (pdf_response ''%PDF'')) = ''%P''"
    by (simp add: pdf_response_def)
  show ?thesis
    using downloadPDF_create_write_failure [OF ne g st ct rd bd] cr dr wf tk
    unfolding p by simp
qed

text \<open>
  The claim as the specification states it fails when the write fails: here it fails
  before the first byte, the task returns false, and \<^verbatim>\<open>PDFs/a.pdf\<close> is left as a file of
  zero bytes, although no download completed.
\<close>

theorem downloadPDF_write_failure_counterexample:
  "fst (downloadPDF ((a_pdf_env (Some (pdf_response ''%PDF'')))\<lparr>write_fails_after := (\<lambda>p. Some 0)\<rparr>)
         a_pdf_url outputDir empty_world) = False
   \<and> fs (snd (downloadPDF
         ((a_pdf_env (Some (pdf_response ''%PDF'')))\<lparr>write_fails_after := (\<lambda>p. Some 0)\<rparr>)
         a_pdf_url outputDir empty_world)) ''PDFs/a.pdf'' = Some (File [])
   \<and> fileExists (snd (downloadPDF
         ((a_pdf_env (Some (pdf_response ''%PDF'')))\<lparr>write_fails_after := (\<lambda>p. Some 0)\<rparr>)
         a_pdf_url outputDir empty_world)) ''PDFs/a.pdf''"
  by code_simp

section \<open>Properties of the download orchestrator\<close>

lemma launch_loop_tasks:
  "fst (launch_loop env urls (tasks, w)) = tasks @ filter (isUrlValid env) (map fullURL_of urls)"
  by (induction urls arbitrary: tasks w) (simp_all add: Let_def)

text \<open>
  C1. A link that already starts with \<^verbatim>\<open>https://www.avient.com\<close> is not used as it is:
  the \<^verbatim>\<open>if\<close> of the loop does not assign \<^verbatim>\<open>fullURL\<close>, the URL that is validated is the
  empty string, validation fails, "Invalid URL" is logged with the empty string, and the
  loop goes on to the next link without launching a task.
\<close>

theorem absolute_link_gets_no_task:
  assumes "HasPrefix url origin"
  shows "fullURL_of url = []
    \<and> launch_loop env (url # rest) (tasks, w)
        = launch_loop env rest (tasks, say (LogInvalidURL []) w)"
  using assms by (simp add: fullURL_of_def isUrlValid_def)

text \<open>
  The link \<^verbatim>\<open>https://www.avient.com/a.pdf\<close> is a URI the validator accepts, and the loop
  launches nothing for it.
\<close>

theorem absolute_link_gets_no_task_witness:
  "isUrlValid quiet_env a_pdf_url
   \<and> launch_loop quiet_env [a_pdf_url] ([], empty_world)
       = ([], say (LogInvalidURL []) empty_world)"
proof -
  have h: "HasPrefix a_pdf_url origin" by code_simp
  have v: "isUrlValid quiet_env a_pdf_url" by code_simp
  show ?thesis
    using absolute_link_gets_no_task [OF h, of quiet_env "[]" "[]" empty_world] v
    by (simp del: launch_loop.simps(2) add: launch_loop.simps(1))
qed

text \<open>
  C10. The download tasks are launched for the deduplicated links in reversed order:
  the launched URLs are the valid resolved URLs of the first occurrences of the extracted
  links, taken from the last one to the first.
\<close>

theorem downloads_launched_in_reverse_order:
  "fst (download_orchestrator env htmlContent w) =
     filter (isUrlValid env)
       (map fullURL_of (rev (first_occurrences (fst (parseHTML env htmlContent)))))"
proof -
  obtain links lines where p: "parseHTML env htmlContent = (links, lines)"
    by (cases "parseHTML env htmlContent")
  show ?thesis
    by (simp add: download_orchestrator_def p Let_def launch_loop_tasks
        removeDuplicates_positions)
qed

text \<open>
  A document with anchors to \<^verbatim>\<open>/a.pdf\<close>, \<^verbatim>\<open>/b.pdf\<close> and \<^verbatim>\<open>/a.pdf\<close> again: the task for
  \<^verbatim>\<open>/b.pdf\<close> is launched first, the one for \<^verbatim>\<open>/a.pdf\<close> second.
\<close>

theorem downloads_launched_in_reverse_order_witness:
  "fst (download_orchestrator
          (quiet_env\<lparr>anchors := (\<lambda>h. Some [Some ''/a.pdf'', Some ''/b.pdf'', Some ''/a.pdf''])\<rparr>)
          [] empty_world)
   = [''https://www.avient.com/b.pdf'', ''https://www.avient.com/a.pdf'']"
proof -
  let ?env = "quiet_env\<lparr>anchors := (\<lambda>h. Some [Some ''/a.pdf'', Some ''/b.pdf'', Some ''/a.pdf''])\<rparr>"
  have r: "filter (isUrlValid ?env)
       (map fullURL_of (rev (first_occurrences (fst (parseHTML ?env [])))))
     = [''https://www.avient.com/b.pdf'', ''https://www.avient.com/a.pdf'']"
    by code_simp
  show ?thesis
    using downloads_launched_in_reverse_order [of ?env "[]" empty_world] r by simp
qed

section \<open>Properties of the page fetch stage\<close>

lemma getData_exit: "http_get env uri = None \<Longrightarrow> exited (getDataFromURL env uri loc w)"
  by (simp add: getDataFromURL_def Let_def)

lemma append_fs:
  "p \<noteq> path \<Longrightarrow> fs (world_of (appendAndWriteToFile env path content w)) p = fs w p"
  by (auto simp: appendAndWriteToFile_def Let_def split: option.splits entry.splits)

lemma append_requests:
  "requests (world_of (appendAndWriteToFile env path content w)) = requests w"
  by (auto simp: appendAndWriteToFile_def Let_def split: option.splits entry.splits)

lemma getData_fs:
  "p \<noteq> loc \<Longrightarrow> fs (world_of (getDataFromURL env uri loc w)) p = fs w p"
  by (auto simp: getDataFromURL_def Let_def append_fs split: option.splits)

lemma getData_requests:
  "requests (world_of (getDataFromURL env uri loc w)) = requests w @ [uri]"
  by (auto simp: getDataFromURL_def Let_def append_requests split: option.splits)

lemma run_page_tasks_exit:
  "uri \<in> set ts \<Longrightarrow> http_get env uri = None \<Longrightarrow> exited (run_page_tasks env ts w)"
proof (induction ts arbitrary: w)
  case Nil
  then show ?case by simp
next
  case (Cons t ts)
  show ?case
  proof (cases "getDataFromURL env t localLocation w")
    case (Exited w')
    then show ?thesis by simp
  next
    case (Returned u w')
    have "t \<noteq> uri"
      using getData_exit [of env uri localLocation w] Cons.prems(2) Returned by auto
    then have "uri \<in> set ts" using Cons.prems(1) by auto
    then show ?thesis using Returned Cons.IH Cons.prems(2) by simp
  qed
qed

lemma run_page_tasks_fs:
  "p \<noteq> localLocation \<Longrightarrow> fs (world_of (run_page_tasks env ts w)) p = fs w p"
proof (induction ts arbitrary: w)
  case Nil
  show ?case by simp
next
  case (Cons t ts)
  show ?case
  proof (cases "getDataFromURL env t localLocation w")
    case (Exited w')
    then show ?thesis using getData_fs [OF Cons.prems, of env t w] by simp
  next
    case (Returned u w')
    then show ?thesis
      using getData_fs [OF Cons.prems, of env t w] Cons.IH [OF Cons.prems, of w'] by simp
  qed
qed

lemma run_page_tasks_requests:
  "set (requests (world_of (run_page_tasks env ts w))) \<subseteq> set (requests w) \<union> set ts"
proof (induction ts arbitrary: w)
  case Nil
  show ?case by simp
next
  case (Cons t ts)
  show ?case
  proof (cases "getDataFromURL env t localLocation w")
    case (Exited w')
    then show ?thesis using getData_requests [of env t localLocation w] by auto
  next
    case (Returned u w')
    then show ?thesis
      using getData_requests [of env t localLocation w] Cons.IH [of w'] by auto
  qed
qed

lemma main_stage1_exit:
  assumes "\<not> fileExists w localLocation"
    and "exited (run_page_tasks env (schedule env page_urls) w)"
  shows "main env w = Exited (world_of (run_page_tasks env (schedule env page_urls) w))"
  using assms
  by (cases "run_page_tasks env (schedule env page_urls) w") (simp_all add: main_def)

text \<open>
  C4. A page-fetch task whose GET request has a transport error ends the process. So,
  in a run that fetches the pages (the aggregate file is absent) and in which the request
  of some page has a transport error, whatever the order in which the scheduler lets the
  page tasks take effect, \<^verbatim>\<open>main\<close> ends in the exit: no file other than the aggregate file
  is changed, and every request that was issued is a page request, none a download.
\<close>

theorem page_fetch_transport_error_is_fatal:
  assumes "\<not> fileExists w localLocation"
    and "uri \<in> set page_urls"
    and "http_get env uri = None"
    and "set (schedule env page_urls) = set page_urls"
  shows "(\<forall>w'. exited (getDataFromURL env uri localLocation w'))
    \<and> exited (main env w)
    \<and> (\<forall>p. p \<noteq> localLocation \<longrightarrow> fs (world_of (main env w)) p = fs w p)
    \<and> set (requests (world_of (main env w))) \<subseteq> set (requests w) \<union> set page_urls"
proof -
  let ?r = "run_page_tasks env (schedule env page_urls) w"
  have t: "\<forall>w'. exited (getDataFromURL env uri localLocation w')"
    using assms(3) by (simp add: getData_exit)
  have ex: "exited ?r"
    using assms(2,3,4) run_page_tasks_exit [of uri "schedule env page_urls" env w] by simp
  have m: "main env w = Exited (world_of ?r)"
    using main_stage1_exit [OF assms(1) ex] .
  have a: "exited (main env w)" by (simp add: m)
  have b: "\<forall>p. p \<noteq> localLocation \<longrightarrow> fs (world_of (main env w)) p = fs w p"
    by (simp add: m run_page_tasks_fs)
  have c: "set (requests (world_of (main env w))) \<subseteq> set (requests w) \<union> set page_urls"
    using run_page_tasks_requests [of env "schedule env page_urls" w] assms(4) by (simp add: m)
  from t a b c show ?thesis by blast
qed

text \<open>
  With an unreachable network the request of page 0 fails: the run ends in the exit and
  the output file \<^verbatim>\<open>PDFs/a.pdf\<close> does not exist.
\<close>

theorem page_fetch_transport_error_is_fatal_witness:
  "exited (main quiet_env empty_world)
   \<and> fs (world_of (main quiet_env empty_world)) ''PDFs/a.pdf'' = None"
proof -
  have h1: "\<not> fileExists empty_world localLocation"
    by (simp add: fileExists_def empty_world_def)
  have h2: "baseURL @ itoa 0 \<in> set page_urls"
    by (simp add: page_urls_def)
  have h3: "http_get quiet_env (baseURL @ itoa 0) = None"
    by (simp add: quiet_env_def)
  have h4: "set (schedule quiet_env page_urls) = set page_urls"
    by (simp add: quiet_env_def)
  have n: "''PDFs/a.pdf'' \<noteq> localLocation"
    by (simp add: localLocation_def)
  have e: "fs empty_world ''PDFs/a.pdf'' = None"
    by (simp add: empty_world_def)
  show ?thesis
    using page_fetch_transport_error_is_fatal [OF h1 h2 h3 h4] n e by simp
qed

end
